theory Spec2Isabelle
  imports Complex_Main "HOL-Library.Multiset"
begin

section \<open>Hot-Dog, the 3D viewer: mesh, camera and render pipeline\<close>

text \<open>
  The embedding follows \<^verbatim>\<open>src/Hot-Dog.py\<close>. Python ints are \<open>int\<close>, tuples are products
  and lists are lists. Python floats are idealised as reals: \<^verbatim>\<open>math.sin\<close>,
  \<^verbatim>\<open>math.cos\<close>, \<^verbatim>\<open>math.sqrt\<close> and \<^verbatim>\<open>math.pi\<close> are the real functions and constant,
  and arithmetic is exact. Rounding, infinities and NaN are not part of the model: a real
  beyond the largest finite float stands for an infinite float. Where the program raises
  because a float result leaves the finite range (the squares in the normal computation),
  the model raises when the exact result exceeds the largest finite float; \<^verbatim>\<open>int(x)\<close>
  in the projection is modelled for finite \<open>x\<close>. Every exception the modelled code can
  raise is a value of \<open>error\<close>.
\<close>

subsection \<open>Python primitives used by the program\<close>

datatype error = ValueError | IndexError | ZeroDivisionError | OverflowError | OSError

type_synonym vec3 = "real \<times> real \<times> real"
type_synonym color = "int \<times> int \<times> int"
type_synonym face = "int list"
type_synonym projected = "int \<times> int \<times> real"

text \<open>\<^verbatim>\<open>range(n)\<close>: the integers \<open>0, ..., n - 1\<close>, empty when \<open>n \<le> 0\<close>.\<close>

definition py_range :: "int \<Rightarrow> int list" where
  "py_range n = [0..n - 1]"

text \<open>
  \<^verbatim>\<open>xs[i]\<close> on a list: an index from \<open>-len(xs)\<close> up to \<open>-1\<close> is taken from the end,
  an index outside \<open>-len(xs) .. len(xs) - 1\<close> raises IndexError.
\<close>

definition py_index :: "'a list \<Rightarrow> int \<Rightarrow> error + 'a" where
  "py_index xs i =
     (if 0 \<le> i \<and> i < int (length xs) then Inr (xs ! nat i)
      else if - int (length xs) \<le> i \<and> i < 0 then Inr (xs ! nat (int (length xs) + i))
      else Inl IndexError)"

text \<open>\<^verbatim>\<open>int(x)\<close> on a float: truncation towards zero.\<close>

definition int_trunc :: "real \<Rightarrow> int" where
  "int_trunc x = (if 0 \<le> x then \<lfloor>x\<rfloor> else \<lceil>x\<rceil>)"

text \<open>
  The largest finite float, \<^verbatim>\<open>sys.float_info.max\<close>, and \<^verbatim>\<open>x ** 2\<close> on a float, which
  raises OverflowError when \<open>x\<close> is finite and the square is out of range.
\<close>

definition float_max :: real where
  "float_max = (2 - 1 / 2 ^ 52) * 2 ^ 1023"

definition py_square :: "real \<Rightarrow> error + real" where
  "py_square x =
     (if \<bar>x\<bar> \<le> float_max \<and> x\<^sup>2 > float_max then Inl OverflowError else Inr (x\<^sup>2))"

text \<open>\<^verbatim>\<open>min(...)\<close> and \<^verbatim>\<open>max(...)\<close> over a non-empty sequence, first element \<open>x\<close>.\<close>

definition py_min :: "real \<Rightarrow> real list \<Rightarrow> real" where
  "py_min x xs = fold min xs x"

definition py_max :: "real \<Rightarrow> real list \<Rightarrow> real" where
  "py_max x xs = fold max xs x"

subsection \<open>Screen dimensions\<close>

text \<open>
  \<^verbatim>\<open>WIDTH\<close> and \<^verbatim>\<open>HEIGHT\<close> are module globals, reassigned on a window resize; the
  functions that read them take the current values as arguments. These are the initial ones.
\<close>

definition MIN_WIDTH :: int where "MIN_WIDTH = 800"
definition MIN_HEIGHT :: int where "MIN_HEIGHT = 600"
definition WIDTH :: int where "WIDTH = 1200"
definition HEIGHT :: int where "HEIGHT = 800"

subsection \<open>class Mesh\<close>

text \<open>
  The fields of \<^verbatim>\<open>Mesh\<close>; \<^verbatim>\<open>texture\<close>, set to \<^verbatim>\<open>None\<close> by the constructor and never
  read or written again, is left out. A face is the tuple of its vertex indices.
\<close>

record mesh =
  vertices :: "vec3 list"
  faces :: "face list"
  normals :: "vec3 list"
  colors :: "color list"
  bounding_box :: "vec3 \<times> vec3"
  vertex_cache :: "int \<rightharpoonup> projected"

definition calculate_bounding_box :: "mesh \<Rightarrow> mesh" where
  "calculate_bounding_box m =
     (case vertices m of
        [] \<Rightarrow> m\<lparr>bounding_box := ((-1, -1, -1), (1, 1, 1))\<rparr>
      | v # vs \<Rightarrow>
          (let min_x = py_min (fst v) (map fst vs);
               min_y = py_min (fst (snd v)) (map (\<lambda>w. fst (snd w)) vs);
               min_z = py_min (snd (snd v)) (map (\<lambda>w. snd (snd w)) vs);
               max_x = py_max (fst v) (map fst vs);
               max_y = py_max (fst (snd v)) (map (\<lambda>w. fst (snd w)) vs);
               max_z = py_max (snd (snd v)) (map (\<lambda>w. snd (snd w)) vs)
           in m\<lparr>bounding_box := ((min_x, min_y, min_z), (max_x, max_y, max_z))\<rparr>))"

definition get_size :: "mesh \<Rightarrow> vec3" where
  "get_size m =
     (case bounding_box m of ((x0, y0, z0), (x1, y1, z1)) \<Rightarrow> (x1 - x0, y1 - y0, z1 - z0))"

definition get_center :: "mesh \<Rightarrow> vec3" where
  "get_center m =
     (case bounding_box m of ((x0, y0, z0), (x1, y1, z1)) \<Rightarrow>
        ((x0 + x1) / 2, (y0 + y1) / 2, (z0 + z1) / 2))"

definition generate_cube :: "mesh \<Rightarrow> mesh" where
  "generate_cube m =
     (calculate_bounding_box
        (m\<lparr>vertices :=
             [(-1, -1, -1), (1, -1, -1), (1, 1, -1), (-1, 1, -1),
              (-1, -1, 1), (1, -1, 1), (1, 1, 1), (-1, 1, 1)],
           faces :=
             [[0, 1, 2], [0, 2, 3],
              [4, 5, 6], [4, 6, 7],
              [0, 4, 7], [0, 7, 3],
              [1, 5, 6], [1, 6, 2],
              [3, 2, 6], [3, 6, 7],
              [0, 1, 5], [0, 5, 4]],
           normals :=
             [(0, 0, -1), (0, 0, -1),
              (0, 0, 1), (0, 0, 1),
              (-1, 0, 0), (-1, 0, 0),
              (1, 0, 0), (1, 0, 0),
              (0, 1, 0), (0, 1, 0),
              (0, -1, 0), (0, -1, 0)],
           colors :=
             [(255, 0, 0), (200, 0, 0),
              (0, 255, 0), (0, 200, 0),
              (0, 0, 255), (0, 0, 200),
              (255, 255, 0), (200, 200, 0),
              (255, 0, 255), (200, 0, 200),
              (0, 255, 255), (0, 200, 200)]\<rparr>))
       \<lparr>vertex_cache := Map.empty\<rparr>"

text \<open>\<^verbatim>\<open>Mesh.__init__\<close>: empty sequences, the default bounding box, then the cube.\<close>

definition Mesh_init :: mesh where
  "Mesh_init =
     generate_cube
       \<lparr>vertices = [], faces = [], normals = [], colors = [],
        bounding_box = ((-1, -1, -1), (1, 1, 1)), vertex_cache = Map.empty\<rparr>"

text \<open>
  \<^verbatim>\<open>random.randint(100, 255)\<close> is not a function of the program state: the sequence of
  draws is a parameter \<open>rnd\<close>, the \<open>k\<close>-th draw being \<open>rnd k\<close>. Face \<open>i\<close> takes three draws.
\<close>

definition random_colors :: "(nat \<Rightarrow> int) \<Rightarrow> nat \<Rightarrow> color list" where
  "random_colors rnd n = map (\<lambda>i. (rnd (3 * i), rnd (3 * i + 1), rnd (3 * i + 2))) [0..<n]"

text \<open>The body of the two vertex loops of \<^verbatim>\<open>generate_sphere\<close>, ring \<open>i\<close>, point \<open>j\<close>.\<close>

definition sphere_point :: "int \<Rightarrow> int \<Rightarrow> int \<Rightarrow> vec3" where
  "sphere_point resolution i j =
     (let lat = pi * real_of_int i / real_of_int resolution;
          sin_lat = sin lat;
          cos_lat = cos lat;
          lon = 2 * pi * real_of_int j / real_of_int resolution;
          sin_lon = sin lon;
          cos_lon = cos lon;
          x = sin_lat * cos_lon;
          y = cos_lat;
          z = sin_lat * sin_lon
      in (x, y, z))"

definition sphere_points :: "int \<Rightarrow> vec3 list" where
  "sphere_points resolution =
     concat (map (\<lambda>i. map (\<lambda>j. sphere_point resolution i j) (py_range (resolution + 1)))
                 (py_range (resolution + 1)))"

text \<open>The body of the two face loops: the two triangles of quad cell \<open>(i, j)\<close>.\<close>

definition sphere_quad :: "int \<Rightarrow> int \<Rightarrow> int \<Rightarrow> face list" where
  "sphere_quad resolution i j =
     (let v1 = i * (resolution + 1) + j;
          v2 = v1 + 1;
          v3 = v1 + (resolution + 1);
          v4 = v2 + (resolution + 1)
      in [[v1, v2, v3], [v2, v4, v3]])"

definition sphere_faces :: "int \<Rightarrow> face list" where
  "sphere_faces resolution =
     concat (map (\<lambda>i. concat (map (\<lambda>j. sphere_quad resolution i j) (py_range resolution)))
                 (py_range resolution))"

text \<open>
  \<^verbatim>\<open>generate_sphere(resolution)\<close>. The only operation that can raise is the division by
  \<open>resolution\<close> in the first iteration of the vertex loop, which runs when
  \<open>resolution + 1 > 0\<close>: the call raises ZeroDivisionError exactly when \<open>resolution = 0\<close>.
  Both the vertex and the normal list receive one entry per generated point.
\<close>

definition generate_sphere :: "(nat \<Rightarrow> int) \<Rightarrow> mesh \<Rightarrow> int \<Rightarrow> error + mesh" where
  "generate_sphere rnd m resolution =
     (if resolution = 0 then Inl ZeroDivisionError
      else
        (let ps = sphere_points resolution;
             fs = sphere_faces resolution
         in Inr (calculate_bounding_box
                  (m\<lparr>vertices := ps, faces := fs, normals := ps,
                     colors := random_colors rnd (length fs),
                     vertex_cache := Map.empty\<rparr>))))"

subsection \<open>Mesh import: \<^verbatim>\<open>Mesh.load_from_obj\<close>\<close>

text \<open>
  A character of a line is a code point below 256. \<^verbatim>\<open>str.isspace\<close> on that range, the
  whitespace of \<^verbatim>\<open>strip()\<close> and \<^verbatim>\<open>split()\<close>: tab to carriage return, the four
  separators 0x1C to 0x1F, the space, NEL (0x85) and the no-break space (0xA0).
\<close>

definition py_isspace :: "char \<Rightarrow> bool" where
  "py_isspace c =
     (c \<in> set [CHR '' '', CHR 0x09, CHR 0x0A, CHR 0x0B, CHR 0x0C, CHR 0x0D,
               CHR 0x1C, CHR 0x1D, CHR 0x1E, CHR 0x1F, CHR 0x85, CHR 0xA0])"

definition py_strip :: "string \<Rightarrow> string" where
  "py_strip s = rev (dropWhile py_isspace (rev (dropWhile py_isspace s)))"

text \<open>\<^verbatim>\<open>s.split()\<close>: the maximal runs of non-whitespace; \<open>cur\<close> is the current run, reversed.\<close>

fun split_ws :: "string \<Rightarrow> string \<Rightarrow> string list" where
  "split_ws cur [] = (if cur = [] then [] else [rev cur])"
| "split_ws cur (c # cs) =
     (if py_isspace c then (if cur = [] then split_ws [] cs else rev cur # split_ws [] cs)
      else split_ws (c # cur) cs)"

definition py_split :: "string \<Rightarrow> string list" where
  "py_split s = split_ws [] s"

text \<open>\<^verbatim>\<open>s.split(sep)\<close> for a one-character separator.\<close>

fun split_sep :: "char \<Rightarrow> string \<Rightarrow> string \<Rightarrow> string list" where
  "split_sep sep cur [] = [rev cur]"
| "split_sep sep cur (c # cs) =
     (if c = sep then rev cur # split_sep sep [] cs else split_sep sep (c # cur) cs)"

definition py_split_on :: "char \<Rightarrow> string \<Rightarrow> string list" where
  "py_split_on sep s = split_sep sep [] s"

definition startswith :: "string \<Rightarrow> string \<Rightarrow> bool" where
  "startswith s p = (take (length p) s = p)"

text \<open>
  The builtins \<^verbatim>\<open>float\<close> and \<^verbatim>\<open>int\<close> on a string are parameters \<open>float_of\<close> and
  \<open>int_of\<close> of the importer: \<open>None\<close> where the builtin raises ValueError.

  A vertex line with at least four parts: \<^verbatim>\<open>(float(parts[1]), -float(parts[3]), float(parts[2]))\<close>,
  evaluated left to right.
\<close>

definition parse_vertex :: "(string \<Rightarrow> real option) \<Rightarrow> string list \<Rightarrow> error + vec3" where
  "parse_vertex float_of parts =
     (case float_of (parts ! 1) of
        None \<Rightarrow> Inl ValueError
      | Some a \<Rightarrow>
          (case float_of (parts ! 3) of
             None \<Rightarrow> Inl ValueError
           | Some b \<Rightarrow>
               (case float_of (parts ! 2) of
                  None \<Rightarrow> Inl ValueError
                | Some c \<Rightarrow> Inr (a, - b, c))))"

text \<open>The loop over \<^verbatim>\<open>parts[1:]\<close> of a face line: \<^verbatim>\<open>int(parts[i].split('/')[0]) - 1\<close>.\<close>

fun face_indices :: "(string \<Rightarrow> int option) \<Rightarrow> string list \<Rightarrow> error + int list" where
  "face_indices int_of [] = Inr []"
| "face_indices int_of (p # ps) =
     (case py_split_on CHR ''/'' p of
        [] \<Rightarrow> Inl IndexError
      | v # _ \<Rightarrow>
          (case int_of v of
             None \<Rightarrow> Inl ValueError
           | Some k \<Rightarrow>
               (case face_indices int_of ps of
                  Inl e \<Rightarrow> Inl e
                | Inr ks \<Rightarrow> Inr ((k - 1) # ks))))"

text \<open>Fan triangulation of a face with more than three vertices; a triangle is kept.\<close>

definition triangulate :: "int list \<Rightarrow> face list" where
  "triangulate face_vertices =
     (if length face_vertices > 3
      then map (\<lambda>j. [face_vertices ! 0, face_vertices ! j, face_vertices ! (j + 1)])
               [1..<length face_vertices - 1]
      else [face_vertices])"

text \<open>
  The body of the loop over the lines of the file: what one line appends to the vertices
  and faces read so far, or the error it raises (nothing is appended then).
\<close>

definition parse_line ::
  "(string \<Rightarrow> real option) \<Rightarrow> (string \<Rightarrow> int option) \<Rightarrow> string \<Rightarrow>
   vec3 list \<Rightarrow> face list \<Rightarrow> error + (vec3 list \<times> face list)" where
  "parse_line float_of int_of line vs fs =
     (if startswith line ''v '' then
        (let parts = py_split (py_strip line) in
         if length parts \<ge> 4 then
           (case parse_vertex float_of parts of
              Inl e \<Rightarrow> Inl e
            | Inr v \<Rightarrow> Inr (vs @ [v], fs))
         else Inr (vs, fs))
      else if startswith line ''f '' then
        (let parts = py_split (py_strip line) in
         if length parts \<ge> 4 then
           (case face_indices int_of (tl parts) of
              Inl e \<Rightarrow> Inl e
            | Inr face_vertices \<Rightarrow> Inr (vs, fs @ triangulate face_vertices))
         else Inr (vs, fs))
      else Inr (vs, fs))"

text \<open>
  The loop over the lines. The vertices and faces appended so far stay in the mesh when a
  line raises: the result carries them with the error.
\<close>

fun parse_lines ::
  "(string \<Rightarrow> real option) \<Rightarrow> (string \<Rightarrow> int option) \<Rightarrow> string list \<Rightarrow>
   vec3 list \<Rightarrow> face list \<Rightarrow> vec3 list \<times> face list \<times> error option" where
  "parse_lines float_of int_of [] vs fs = (vs, fs, None)"
| "parse_lines float_of int_of (line # rest) vs fs =
     (case parse_line float_of int_of line vs fs of
        Inl e \<Rightarrow> (vs, fs, Some e)
      | Inr (vs', fs') \<Rightarrow> parse_lines float_of int_of rest vs' fs')"

text \<open>
  The normal of one face: cross product of two edges, normalised, \<open>(0, 0, 1)\<close> when the
  cross product has length zero or the face has fewer than three indices. Reading a vertex
  raises IndexError when the index is out of range, and squaring a component of the cross
  product raises OverflowError when the square is out of range. The same code is repeated
  in \<^verbatim>\<open>draw_mesh\<close> for a face without a stored normal.
\<close>

definition face_normal :: "vec3 list \<Rightarrow> face \<Rightarrow> error + vec3" where
  "face_normal vs f =
     (if length f \<ge> 3 then
        (case py_index vs (f ! 0) of
           Inl e \<Rightarrow> Inl e
         | Inr (v1x, v1y, v1z) \<Rightarrow>
        (case py_index vs (f ! 1) of
           Inl e \<Rightarrow> Inl e
         | Inr (v2x, v2y, v2z) \<Rightarrow>
        (case py_index vs (f ! 2) of
           Inl e \<Rightarrow> Inl e
         | Inr (v3x, v3y, v3z) \<Rightarrow>
             (let ux = v2x - v1x; uy = v2y - v1y; uz = v2z - v1z;
                  vx = v3x - v1x; vy = v3y - v1y; vz = v3z - v1z;
                  nx = uy * vz - uz * vy;
                  ny = uz * vx - ux * vz;
                  nz = ux * vy - uy * vx
              in case py_square nx of
                   Inl e \<Rightarrow> Inl e
                 | Inr sx \<Rightarrow>
                case py_square ny of
                   Inl e \<Rightarrow> Inl e
                 | Inr sy \<Rightarrow>
                case py_square nz of
                   Inl e \<Rightarrow> Inl e
                 | Inr sz \<Rightarrow>
                     (let len = sqrt (sx + sy + sz)
                      in if len > 0 then Inr (nx / len, ny / len, nz / len)
                         else Inr (0, 0, 1))))))
      else Inr (0, 0, 1))"

text \<open>The normal loop appends to \<^verbatim>\<open>self.normals\<close>; what was appended stays when a face raises.\<close>

fun generate_normals :: "vec3 list \<Rightarrow> face list \<Rightarrow> vec3 list \<Rightarrow> vec3 list \<times> error option" where
  "generate_normals vs [] ns = (ns, None)"
| "generate_normals vs (f # fs) ns =
     (case face_normal vs f of
        Inl e \<Rightarrow> (ns, Some e)
      | Inr n \<Rightarrow> generate_normals vs fs (ns @ [n]))"

text \<open>
  The source of an import: a path that cannot be opened (\<^verbatim>\<open>open\<close> raises), a file
  whose lines are all delivered, or a file whose iteration raises (a read or decoding
  error) after the given lines were delivered. Each line comes with its terminator.
\<close>

datatype obj_source = Unreadable | Lines "string list" | Interrupted "string list"

text \<open>The five assignments at the top of the \<^verbatim>\<open>try\<close> block.\<close>

definition clear_mesh :: "mesh \<Rightarrow> mesh" where
  "clear_mesh m =
     m\<lparr>vertices := [], faces := [], normals := [], colors := [], vertex_cache := Map.empty\<rparr>"

text \<open>
  \<^verbatim>\<open>load_from_obj\<close> returns the boolean it reports together with the mesh as the call
  leaves it. The sequences and the cache are reset inside the \<^verbatim>\<open>try\<close> block before the
  file is opened, vertices and faces are appended to the mesh line by line, and
  \<^verbatim>\<open>except Exception\<close> turns every error into \<open>False\<close>.
\<close>

definition load_from_obj ::
  "(string \<Rightarrow> real option) \<Rightarrow> (string \<Rightarrow> int option) \<Rightarrow> (nat \<Rightarrow> int) \<Rightarrow>
   mesh \<Rightarrow> obj_source \<Rightarrow> bool \<times> mesh" where
  "load_from_obj float_of int_of rnd m src =
     (let m1 = clear_mesh m
      in case src of
           Unreadable \<Rightarrow> (False, m1)
         | Interrupted ls \<Rightarrow>
             (case parse_lines float_of int_of ls [] [] of
                (vs, fs, r) \<Rightarrow> (False, m1\<lparr>vertices := vs, faces := fs\<rparr>))
         | Lines ls \<Rightarrow>
             (case parse_lines float_of int_of ls [] [] of
                (vs, fs, Some e) \<Rightarrow> (False, m1\<lparr>vertices := vs, faces := fs\<rparr>)
              | (vs, fs, None) \<Rightarrow>
                  (case generate_normals vs fs [] of
                     (ns, Some e) \<Rightarrow> (False, m1\<lparr>vertices := vs, faces := fs, normals := ns\<rparr>)
                   | (ns, None) \<Rightarrow>
                       (True,
                        calculate_bounding_box
                          (m1\<lparr>vertices := vs, faces := fs, normals := ns,
                              colors := random_colors rnd (length fs)\<rparr>)))))"

text \<open>
  Python's \<^verbatim>\<open>int\<close> and \<^verbatim>\<open>float\<close> on plain ASCII decimal literals (an optional sign,
  digits, for \<^verbatim>\<open>float\<close> an optional fraction). They instantiate \<open>int_of\<close> and
  \<open>float_of\<close> in the closed examples, which use such literals only.
\<close>

definition digit_of :: "char \<Rightarrow> nat option" where
  "digit_of c =
     map_of [(CHR ''0'', 0), (CHR ''1'', 1), (CHR ''2'', 2), (CHR ''3'', 3), (CHR ''4'', 4),
             (CHR ''5'', 5), (CHR ''6'', 6), (CHR ''7'', 7), (CHR ''8'', 8), (CHR ''9'', 9)] c"

fun dec_digits :: "string \<Rightarrow> nat \<Rightarrow> nat option" where
  "dec_digits [] acc = Some acc"
| "dec_digits (c # cs) acc =
     (case digit_of c of None \<Rightarrow> None | Some d \<Rightarrow> dec_digits cs (10 * acc + d))"

definition dec_unsigned :: "string \<Rightarrow> nat option" where
  "dec_unsigned s = (if s = [] then None else dec_digits s 0)"

definition dec_int :: "string \<Rightarrow> int option" where
  "dec_int s =
     (case s of
        [] \<Rightarrow> None
      | c # cs \<Rightarrow>
          if c = CHR ''-'' then map_option (\<lambda>n. - int n) (dec_unsigned cs)
          else if c = CHR ''+'' then map_option int (dec_unsigned cs)
          else map_option int (dec_unsigned s))"

definition dec_fraction :: "string \<Rightarrow> real option" where
  "dec_fraction s =
     (case py_split_on CHR ''.'' s of
        [ip] \<Rightarrow> map_option real (dec_unsigned ip)
      | [ip, fp] \<Rightarrow>
          (if ip = [] \<and> fp = [] then None
           else (case (dec_digits ip 0, dec_digits fp 0) of
                   (Some a, Some b) \<Rightarrow> Some (real a + real b / 10 ^ length fp)
                 | _ \<Rightarrow> None))
      | _ \<Rightarrow> None)"

definition dec_float :: "string \<Rightarrow> real option" where
  "dec_float s =
     (case s of
        [] \<Rightarrow> None
      | c # cs \<Rightarrow>
          if c = CHR ''-'' then map_option uminus (dec_fraction cs)
          else if c = CHR ''+'' then dec_fraction cs
          else dec_fraction s)"

subsection \<open>class Camera\<close>

type_synonym camera_key = "real \<times> real \<times> real \<times> real \<times> real"

record camera =
  cam_x :: real
  cam_y :: real
  cam_z :: real
  rot_x :: real
  rot_y :: real
  rot_z :: real
  fov :: real
  near :: real
  far :: real
  pan_x :: real
  pan_y :: real
  last_rot_x :: real
  last_rot_y :: real
  moved :: bool
  cache_key :: "camera_key option"

text \<open>\<^verbatim>\<open>Camera.__init__\<close>; the fields \<^verbatim>\<open>x\<close>, \<^verbatim>\<open>y\<close>, \<^verbatim>\<open>z\<close> are \<open>cam_x\<close>, \<open>cam_y\<close>, \<open>cam_z\<close>.\<close>

definition Camera_init :: camera where
  "Camera_init =
     \<lparr>cam_x = 0, cam_y = 0, cam_z = -5, rot_x = 0, rot_y = 0, rot_z = 0, fov = 60,
      near = 1 / 10, far = 100, pan_x = 0, pan_y = 0, last_rot_x = 0, last_rot_y = 0,
      moved = True, cache_key = None\<rparr>"

text \<open>
  \<^verbatim>\<open>Camera.project\<close>, with the globals \<^verbatim>\<open>WIDTH\<close> and \<^verbatim>\<open>HEIGHT\<close> as the arguments
  \<open>W\<close> and \<open>H\<close>. The division raises ZeroDivisionError when \<open>z + 1e-5\<close> is zero.
\<close>

definition project :: "int \<Rightarrow> int \<Rightarrow> camera \<Rightarrow> vec3 \<Rightarrow> error + projected" where
  "project W H cam point =
     (case point of (x, y, z) \<Rightarrow>
        (let x_rot = x * cos (rot_y cam) - z * sin (rot_y cam);
             z_rot = x * sin (rot_y cam) + z * cos (rot_y cam);
             x1 = x_rot; z1 = z_rot;
             y_rot = y * cos (rot_x cam) - z1 * sin (rot_x cam);
             z_rot2 = y * sin (rot_x cam) + z1 * cos (rot_x cam);
             y1 = y_rot; z2 = z_rot2;
             x2 = x1 + (cam_x cam + pan_x cam);
             y2 = y1 + (cam_y cam + pan_y cam);
             z3 = z2 + cam_z cam
         in if z3 + 1 / 100000 = 0 then Inl ZeroDivisionError
            else
              (let factor = fov cam / (z3 + 1 / 100000);
                   x_proj = x2 * factor;
                   y_proj = y2 * factor;
                   x_screen = W div 2 + int_trunc (x_proj * 100);
                   y_screen = H div 2 + int_trunc (y_proj * 100)
               in Inr (x_screen, y_screen, z3))))"

text \<open>
  \<^verbatim>\<open>Camera.auto_position\<close> reaches two objects, the camera and the mesh it is given:
  the model returns both as the call leaves them.
\<close>

definition auto_position :: "camera \<Rightarrow> mesh \<Rightarrow> camera \<times> mesh" where
  "auto_position cam m =
     (case get_size m of (sx, sy, sz) \<Rightarrow>
      case get_center m of (cx, cy, cz) \<Rightarrow>
        (let max_dim = max sx (max sy sz)
         in (cam\<lparr>cam_z := - max_dim * (5 / 2),
                 pan_x := - cx,
                 pan_y := - cy,
                 cam_x := 0,
                 cam_y := 0,
                 rot_x := 0,
                 rot_y := 0,
                 moved := True\<rparr>, m)))"

subsection \<open>class Viewer3D: \<^verbatim>\<open>draw_mesh\<close>\<close>

text \<open>The fields of the viewer that \<^verbatim>\<open>draw_mesh\<close> reads or writes.\<close>

record viewer =
  camera :: camera
  mesh :: mesh
  light_angle :: real
  shading_mode :: int
  texture_map_mode :: int
  performance_mode :: bool

definition Viewer3D_init :: viewer where
  "Viewer3D_init =
     \<lparr>camera = Camera_init, mesh = Mesh_init, light_angle = 0, shading_mode = 0,
      texture_map_mode = 0, performance_mode = False\<rparr>"

text \<open>The light direction, normalised when its length is positive.\<close>

definition light_dir :: "real \<Rightarrow> vec3" where
  "light_dir angle =
     (let lx = cos angle; ly = sin angle; lz = 1 / 2;
          len = sqrt (lx\<^sup>2 + ly\<^sup>2 + lz\<^sup>2)
      in if len > 0 then (lx / len, ly / len, lz / len) else (lx, ly, lz))"

definition current_key :: "camera \<Rightarrow> camera_key" where
  "current_key cam = (rot_x cam, rot_y cam, cam_z cam, pan_x cam, pan_y cam)"

definition use_cache :: "viewer \<Rightarrow> bool" where
  "use_cache v =
     (\<not> moved (camera v) \<and> Some (current_key (camera v)) = cache_key (camera v)
      \<and> \<not> performance_mode v)"

text \<open>The \<^verbatim>\<open>if not use_cache:\<close> block.\<close>

definition reset_cache :: "viewer \<Rightarrow> viewer" where
  "reset_cache v =
     (if \<not> use_cache v then
        v\<lparr>mesh := (mesh v)\<lparr>vertex_cache := Map.empty\<rparr>,
          camera := (camera v)\<lparr>cache_key := Some (current_key (camera v)), moved := False\<rparr>\<rparr>
      else v)"

text \<open>
  The inner loop over the vertex indices of one face: the cache and the running sum of
  depths are threaded through; the boolean is \<^verbatim>\<open>valid_face\<close>.
\<close>

fun face_depth_sum ::
  "int \<Rightarrow> int \<Rightarrow> camera \<Rightarrow> vec3 list \<Rightarrow> bool \<Rightarrow> face \<Rightarrow> (int \<rightharpoonup> projected) \<Rightarrow> real \<Rightarrow>
   error + ((int \<rightharpoonup> projected) \<times> real \<times> bool)" where
  "face_depth_sum W H cam vs uc [] cache avg_z = Inr (cache, avg_z, True)"
| "face_depth_sum W H cam vs uc (vertex_idx # rest) cache avg_z =
     (if vertex_idx < int (length vs) then
        (case py_index vs vertex_idx of
           Inl e \<Rightarrow> Inl e
         | Inr vertex \<Rightarrow>
             (case (if uc then cache vertex_idx else None) of
                Some projected \<Rightarrow>
                  face_depth_sum W H cam vs uc rest cache (avg_z + snd (snd projected))
              | None \<Rightarrow>
                  (case project W H cam vertex of
                     Inl e \<Rightarrow> Inl e
                   | Inr projected \<Rightarrow>
                       face_depth_sum W H cam vs uc rest (cache(vertex_idx \<mapsto> projected))
                         (avg_z + snd (snd projected)))))
      else Inr (cache, avg_z, False))"

text \<open>The outer loop over \<^verbatim>\<open>enumerate(self.mesh.faces)\<close>, building \<^verbatim>\<open>face_depths\<close>.\<close>

fun face_depths_loop ::
  "int \<Rightarrow> int \<Rightarrow> camera \<Rightarrow> vec3 list \<Rightarrow> bool \<Rightarrow> (nat \<times> face) list \<Rightarrow> (int \<rightharpoonup> projected) \<Rightarrow>
   (nat \<times> real) list \<Rightarrow> error + ((int \<rightharpoonup> projected) \<times> (nat \<times> real) list)" where
  "face_depths_loop W H cam vs uc [] cache face_depths = Inr (cache, face_depths)"
| "face_depths_loop W H cam vs uc ((i, f) # rest) cache face_depths =
     (case face_depth_sum W H cam vs uc f cache 0 of
        Inl e \<Rightarrow> Inl e
      | Inr (cache', avg_z, valid_face) \<Rightarrow>
          (if valid_face \<and> length f > 0
           then face_depths_loop W H cam vs uc rest cache'
                  (face_depths @ [(i, avg_z / real (length f))])
           else face_depths_loop W H cam vs uc rest cache' face_depths))"

text \<open>
  \<^verbatim>\<open>face_depths.sort(key=lambda x: x[1], reverse=True)\<close>: Python's list sort is stable,
  also with \<^verbatim>\<open>reverse=True\<close>; on real keys it is the stable sort by the negated key.
\<close>

definition sort_face_depths :: "(nat \<times> real) list \<Rightarrow> (nat \<times> real) list" where
  "sort_face_depths face_depths = sort_key (\<lambda>x. - snd x) face_depths"

text \<open>
  \<^verbatim>\<open>draw_mesh\<close> up to the sorted list of face depths: the viewer as the cache check and
  the depth loop leave it, and the faces in drawing order.
\<close>

definition draw_mesh_depths :: "int \<Rightarrow> int \<Rightarrow> viewer \<Rightarrow> error + (viewer \<times> (nat \<times> real) list)" where
  "draw_mesh_depths W H v =
     (let uc = use_cache v;
          v1 = reset_cache v
      in case face_depths_loop W H (camera v1) (vertices (mesh v1)) uc
                (zip [0..<length (faces (mesh v1))] (faces (mesh v1)))
                (vertex_cache (mesh v1)) [] of
           Inl e \<Rightarrow> Inl e
         | Inr (cache', face_depths) \<Rightarrow>
             Inr (v1\<lparr>mesh := (mesh v1)\<lparr>vertex_cache := cache'\<rparr>\<rparr>,
                  sort_face_depths face_depths))"

text \<open>Facing test and Lambertian intensity of a face normal under a light direction.\<close>

definition face_intensity :: "vec3 \<Rightarrow> vec3 \<Rightarrow> real" where
  "face_intensity normal light =
     (case normal of (nx, ny, nz) \<Rightarrow>
      case light of (lx, ly, lz) \<Rightarrow>
        (let facing = nz > 0
         in if facing then max (1 / 5) (nx * lx + ny * ly + nz * lz) else 1 / 5))"

text \<open>
  The texture-map-mode chain of \<^verbatim>\<open>draw_mesh\<close>: the color of a face from its base color
  and intensity. Modes 0 to 4 are Color, Normal, Specular, Metallic and Roughness; the
  final \<^verbatim>\<open>else\<close> is Glossiness.
\<close>

definition face_color :: "int \<Rightarrow> color \<Rightarrow> real \<Rightarrow> color" where
  "face_color mode base_color intensity =
     (case base_color of (r, g, b) \<Rightarrow>
        if mode = 0 then
          (int_trunc (real_of_int r * intensity),
           int_trunc (real_of_int g * intensity),
           int_trunc (real_of_int b * intensity))
        else if mode = 1 then
          (int_trunc (100 * intensity), int_trunc (100 * intensity), int_trunc (255 * intensity))
        else if mode = 2 then
          (int_trunc (255 * intensity), int_trunc (255 * intensity), int_trunc (255 * intensity))
        else if mode = 3 then
          (let metallic = (intensity + 1 / 2) / 2
           in (int_trunc (200 * metallic), int_trunc (200 * metallic), int_trunc (200 * metallic)))
        else if mode = 4 then
          (let roughness = 1 - intensity
           in (int_trunc (100 * roughness), int_trunc (100 * roughness),
               int_trunc (100 * roughness)))
        else
          (let glossiness = intensity * (3 / 2)
           in (int_trunc (255 * glossiness), int_trunc (255 * glossiness),
               int_trunc (255 * glossiness))))"

subsection \<open>The projection a frame uses\<close>

text \<open>
  In the words of the claim about the cache: the projection a frame uses for vertex index
  \<open>k\<close> is the cached one when cached projections are in use and \<open>k\<close> has an entry, and
  the projection of vertex \<open>k\<close> computed with the current camera otherwise (\<open>None\<close> where
  reading the vertex or projecting it raises). The depth loop is compared with it below.
\<close>

definition projection_used :: "int \<Rightarrow> int \<Rightarrow> viewer \<Rightarrow> int \<Rightarrow> projected option" where
  "projection_used W H v k =
     (case (if use_cache v then vertex_cache (mesh v) k else None) of
        Some p \<Rightarrow> Some p
      | None \<Rightarrow>
          (case py_index (vertices (mesh v)) k of
             Inl e \<Rightarrow> None
           | Inr vertex \<Rightarrow>
               (case project W H (camera v) vertex of
                  Inl e \<Rightarrow> None
                | Inr p \<Rightarrow> Some p)))"

text \<open>
  The vertex indices the depth loop reaches: in every face, the indices before the first
  one that is not below \<open>len(vertices)\<close>, where the loop leaves the face.
\<close>

definition visited_indices :: "mesh \<Rightarrow> int set" where
  "visited_indices m =
     (\<Union>f \<in> set (faces m). set (takeWhile (\<lambda>k. k < int (length (vertices m))) f))"

subsection \<open>Example imports\<close>

text \<open>
  Small files, imported into the freshly constructed mesh (the cube) with every random
  draw equal to 100: a triangle whose last face index is 0, a triangle whose last face
  index is 999, a single vertex, a file without lines, a file whose third line has a
  token that is not a number, a file whose second face has the index 999, and a file
  whose reading breaks off after two lines.
\<close>

definition obj_index_zero :: obj_source where
  "obj_index_zero =
     Lines [''v 0 0 0\<newline>'', ''v 1 0 0\<newline>'', ''v 0 1 0\<newline>'', ''f 1 2 0\<newline>'']"


definition obj_single_point :: obj_source where
  "obj_single_point = Lines [''v 1 2 3\<newline>'']"

definition obj_empty :: obj_source where
  "obj_empty = Lines []"




definition import_into_cube :: "obj_source \<Rightarrow> bool \<times> mesh" where
  "import_into_cube src = load_from_obj dec_float dec_int (\<lambda>k. 100) Mesh_init src"

section \<open>Properties\<close>

subsection \<open>Lengths of the generated sequences\<close>

lemma length_py_range: "length (py_range n) = nat n"
  by (simp add: py_range_def)

lemma set_py_range: "set (py_range n) = {0..n - 1}"
  by (simp add: py_range_def)

lemma length_concat_const:
  assumes "\<And>x. x \<in> set xs \<Longrightarrow> length (f x) = k"
  shows "length (concat (map f xs)) = length xs * k"
  using assms by (induction xs) auto

lemma length_sphere_points: "length (sphere_points r) = nat (r + 1) * nat (r + 1)"
  unfolding sphere_points_def
  by (subst length_concat_const [where k = "nat (r + 1)"]) (simp_all add: length_py_range)

lemma length_sphere_faces: "length (sphere_faces r) = nat r * (nat r * 2)"
  unfolding sphere_faces_def
  by (subst length_concat_const [where k = "nat r * 2"])
     (simp_all add: length_py_range length_concat_const [where k = 2] sphere_quad_def Let_def)

lemma calculate_bounding_box_fields [simp]:
  "vertices (calculate_bounding_box m) = vertices m"
  "faces (calculate_bounding_box m) = faces m"
  "normals (calculate_bounding_box m) = normals m"
  "colors (calculate_bounding_box m) = colors m"
  "vertex_cache (calculate_bounding_box m) = vertex_cache m"
  by (simp_all add: calculate_bounding_box_def Let_def split: list.splits)

lemma length_random_colors: "length (random_colors rnd n) = n"
  by (simp add: random_colors_def)

subsection \<open>Sphere builder\<close>

lemma sphere_point_unit:
  "case sphere_point r i j of (x, y, z) \<Rightarrow> sqrt (x\<^sup>2 + y\<^sup>2 + z\<^sup>2) = 1"
proof -
  have "(sin a * cos b)\<^sup>2 + (cos a)\<^sup>2 + (sin a * sin b)\<^sup>2 = 1" for a b :: real
    by (simp add: power_mult_distrib sin_squared_eq algebra_simps)
  then show ?thesis by (simp add: sphere_point_def Let_def)
qed

lemma sphere_points_unit:
  assumes "n \<in> set (sphere_points r)"
  shows "case n of (x, y, z) \<Rightarrow> sqrt (x\<^sup>2 + y\<^sup>2 + z\<^sup>2) = 1"
proof -
  from assms obtain i j where "n = sphere_point r i j"
    by (auto simp: sphere_points_def)
  then show ?thesis using sphere_point_unit [of r i j] by simp
qed

lemma generate_sphere_Inr:
  assumes "r \<noteq> 0"
  shows "\<exists>m'. generate_sphere rnd m r = Inr m' \<and>
           vertices m' = sphere_points r \<and> faces m' = sphere_faces r \<and>
           normals m' = sphere_points r \<and>
           colors m' = random_colors rnd (length (sphere_faces r)) \<and>
           vertex_cache m' = Map.empty"
  using assms by (simp add: generate_sphere_def Let_def)

text \<open>
  C8. For every resolution \<open>r \<ge> 1\<close> the sphere builder succeeds and produces exactly
  \<open>(r + 1) \<times> (r + 1)\<close> vertices and \<open>2 \<times> r \<times> r\<close> faces, and every stored normal has
  length 1 (exactly, over the reals, hence within any tolerance).
\<close>

theorem generate_sphere_counts:
  assumes "1 \<le> r"
  shows "\<exists>m'. generate_sphere rnd m r = Inr m' \<and>
           int (length (vertices m')) = (r + 1) * (r + 1) \<and>
           int (length (faces m')) = 2 * r * r \<and>
           (\<forall>n \<in> set (normals m'). case n of (x, y, z) \<Rightarrow> sqrt (x\<^sup>2 + y\<^sup>2 + z\<^sup>2) = 1)"
proof -
  from assms have "r \<noteq> 0" by simp
  from generate_sphere_Inr [OF this, of rnd m] obtain m' where
    m': "generate_sphere rnd m r = Inr m'" "vertices m' = sphere_points r"
      "faces m' = sphere_faces r" "normals m' = sphere_points r"
    by blast
  have "int (length (vertices m')) = (r + 1) * (r + 1)"
    using assms by (simp add: m' length_sphere_points)
  moreover have "int (length (faces m')) = 2 * r * r"
    using assms by (simp add: m' length_sphere_faces)
  moreover have "\<forall>n \<in> set (normals m'). case n of (x, y, z) \<Rightarrow> sqrt (x\<^sup>2 + y\<^sup>2 + z\<^sup>2) = 1"
    using sphere_points_unit by (simp add: m')
  ultimately show ?thesis using m'(1) by blast
qed

theorem generate_sphere_counts_witness:
  "(1::int) \<le> 2 \<and>
   (\<exists>m'. generate_sphere (\<lambda>k. 100) Mesh_init 2 = Inr m' \<and>
           int (length (vertices m')) = 9 \<and>
           int (length (faces m')) = 8 \<and>
           (\<forall>n \<in> set (normals m'). case n of (x, y, z) \<Rightarrow> sqrt (x\<^sup>2 + y\<^sup>2 + z\<^sup>2) = 1))"
  using generate_sphere_counts [of 2 "\<lambda>k. 100" Mesh_init] by simp

text \<open>
  C1. The claim is that the normal, face and color sequences have the same length after
  every successful build. The sphere builder stores one normal per vertex, not per face:
  at the default resolution 20 it leaves 441 normals for 800 faces and 800 colors.
\<close>

theorem generate_sphere_normals_per_vertex:
  "\<exists>m'. generate_sphere rnd m 20 = Inr m' \<and>
         length (normals m') = 441 \<and> length (faces m') = 800 \<and> length (colors m') = 800"
proof -
  have "(20::int) \<noteq> 0" by simp
  from generate_sphere_Inr [OF this, of rnd m] obtain m' where
    m': "generate_sphere rnd m 20 = Inr m'" "faces m' = sphere_faces 20"
      "normals m' = sphere_points 20" "colors m' = random_colors rnd (length (sphere_faces 20))"
    by blast
  have "length (normals m') = 441" by (simp add: m' length_sphere_points)
  moreover have "length (faces m') = 800" by (simp add: m' length_sphere_faces)
  moreover have "length (colors m') = 800"
    by (simp add: m' length_sphere_faces length_random_colors)
  ultimately show ?thesis using m'(1) by blast
qed

subsection \<open>Cube builder and face indices of the two builders\<close>


lemma generate_cube_lengths:
  "length (vertices (generate_cube m)) = 8 \<and> length (faces (generate_cube m)) = 12 \<and>
   length (normals (generate_cube m)) = 12 \<and> length (colors (generate_cube m)) = 12"
  by (simp add: generate_cube_def)

lemma generate_cube_valid_indices:
  "\<forall>f \<in> set (faces (generate_cube m)). length f = 3 \<and>
     (\<forall>i \<in> set f. 0 \<le> i \<and> i < int (length (vertices (generate_cube m))))"
  by (simp add: generate_cube_def)

lemma sphere_quad_valid_indices:
  assumes "0 \<le> i" "i \<le> r - 1" "0 \<le> j" "j \<le> r - 1" "f \<in> set (sphere_quad r i j)"
  shows "length f = 3 \<and> (\<forall>k \<in> set f. 0 \<le> k \<and> k < (r + 1) * (r + 1))"
proof -
  have r: "1 \<le> r" using assms by linarith
  have lo: "0 \<le> i * (r + 1)" using assms r by simp
  have "i * (r + 1) \<le> (r - 1) * (r + 1)"
    using assms r by (intro mult_right_mono) auto
  then have hi: "i * (r + 1) + j + 1 + (r + 1) < (r + 1) * (r + 1)"
    using assms by (simp add: algebra_simps)
  from assms(5) have "f = [i * (r + 1) + j, i * (r + 1) + j + 1, i * (r + 1) + j + (r + 1)]
      \<or> f = [i * (r + 1) + j + 1, i * (r + 1) + j + 1 + (r + 1), i * (r + 1) + j + (r + 1)]"
    unfolding sphere_quad_def Let_def by (auto simp: add_ac)
  then show ?thesis using lo hi assms r by auto
qed

lemma sphere_faces_valid_indices:
  assumes "f \<in> set (sphere_faces r)"
  shows "length f = 3 \<and> (\<forall>k \<in> set f. 0 \<le> k \<and> k < (r + 1) * (r + 1))"
proof -
  from assms obtain i j where "i \<in> set (py_range r)" "j \<in> set (py_range r)"
    "f \<in> set (sphere_quad r i j)"
    by (auto simp: sphere_faces_def)
  then show ?thesis using sphere_quad_valid_indices [of i r j f]
    by (simp add: set_py_range)
qed

lemma generate_sphere_valid_indices:
  assumes "generate_sphere rnd m r = Inr m'"
  shows "\<forall>f \<in> set (faces m'). length f = 3 \<and>
           (\<forall>k \<in> set f. 0 \<le> k \<and> k < int (length (vertices m')))"
proof (cases "1 \<le> r")
  case True
  with assms have e: "faces m' = sphere_faces r" "vertices m' = sphere_points r"
    by (auto simp: generate_sphere_def Let_def split: if_splits)
  have "int (length (sphere_points r)) = (r + 1) * (r + 1)"
    using True by (simp add: length_sphere_points)
  with sphere_faces_valid_indices [of _ r] show ?thesis by (simp add: e)
next
  case False
  with assms have "faces m' = sphere_faces r" "r < 0"
    by (auto simp: generate_sphere_def Let_def split: if_splits)
  then have "faces m' = []" by (simp add: sphere_faces_def py_range_def)
  then show ?thesis by simp
qed

subsection \<open>Mesh import\<close>

lemma generate_normals_length:
  "generate_normals vs fs ns = (ns', r) \<Longrightarrow>
   (r = None \<longrightarrow> length ns' = length ns + length fs) \<and>
   (r \<noteq> None \<longrightarrow> length ns' < length ns + length fs)"
proof (induction fs arbitrary: ns)
  case Nil
  then show ?case by auto
next
  case (Cons f fs)
  show ?case
  proof (cases "face_normal vs f")
    case (Inl e)
    with Cons.prems show ?thesis by auto
  next
    case (Inr n)
    with Cons.prems have "generate_normals vs fs (ns @ [n]) = (ns', r)" by simp
    from Cons.IH [OF this] show ?thesis by auto
  qed
qed

lemma face_indices_length:
  "face_indices int_of ps = Inr ks \<Longrightarrow> length ks = length ps"
  by (induction ps arbitrary: ks) (auto split: list.splits option.splits sum.splits)

lemma triangulate_triples:
  assumes "3 \<le> length fv" "f \<in> set (triangulate fv)"
  shows "length f = 3"
proof (cases "length fv > 3")
  case True
  with assms(2) obtain j where "j \<in> {1..<length fv - 1}" "f = [fv ! 0, fv ! j, fv ! (j + 1)]"
    by (auto simp: triangulate_def)
  with True show ?thesis by auto
next
  case False
  with assms show ?thesis by (auto simp: triangulate_def)
qed

lemma parse_line_triples:
  assumes "parse_line float_of int_of line vs fs = Inr (vs', fs')"
    and "\<forall>f \<in> set fs. length f = 3"
  shows "\<forall>f \<in> set fs'. length f = 3"
proof (cases "startswith line ''v ''")
  case True
  with assms show ?thesis
    by (auto simp: parse_line_def Let_def split: if_splits sum.splits)
next
  case nv: False
  show ?thesis
  proof (cases "startswith line ''f '' \<and> 4 \<le> length (py_split (py_strip line))")
    case False
    with nv assms show ?thesis by (auto simp: parse_line_def Let_def split: if_splits)
  next
    case True
    let ?parts = "py_split (py_strip line)"
    from nv True assms(1) obtain fv where fv: "face_indices int_of (tl ?parts) = Inr fv"
      and fs': "fs' = fs @ triangulate fv"
      by (auto simp: parse_line_def Let_def split: sum.splits)
    from fv have "length fv = length (tl ?parts)" by (rule face_indices_length)
    with True have "3 \<le> length fv" by auto
    then show ?thesis using assms(2) triangulate_triples unfolding fs' by auto
  qed
qed

lemma parse_lines_triples:
  assumes "parse_lines float_of int_of ls vs fs = (vs', fs', r)"
    and "\<forall>f \<in> set fs. length f = 3"
  shows "\<forall>f \<in> set fs'. length f = 3"
  using assms
proof (induction ls arbitrary: vs fs)
  case Nil
  then show ?case by simp
next
  case (Cons line rest)
  show ?case
  proof (cases "parse_line float_of int_of line vs fs")
    case (Inl e)
    with Cons.prems show ?thesis by simp
  next
    case (Inr a)
    obtain vs1 fs1 where a: "a = (vs1, fs1)" by (cases a)
    from Inr a Cons.prems(1) have "parse_lines float_of int_of rest vs1 fs1 = (vs', fs', r)"
      by simp
    moreover from parse_line_triples [OF Inr [unfolded a] Cons.prems(2)]
    have "\<forall>f \<in> set fs1. length f = 3" .
    ultimately show ?thesis by (rule Cons.IH)
  qed
qed

lemma py_index_Inr_iff:
  "(\<exists>a. py_index xs i = Inr a) \<longleftrightarrow> - int (length xs) \<le> i \<and> i < int (length xs)"
  by (auto simp: py_index_def)

lemma face_normal_Inr_range:
  assumes "face_normal vs f = Inr n" "length f = 3"
  shows "\<forall>i \<in> set f. - int (length vs) \<le> i \<and> i < int (length vs)"
proof -
  from assms obtain a b c where f: "f = [a, b, c]"
    by (cases f; cases "tl f"; cases "tl (tl f)") auto
  from assms(1) have "\<exists>x. py_index vs a = Inr x" "\<exists>x. py_index vs b = Inr x"
    "\<exists>x. py_index vs c = Inr x"
    unfolding f face_normal_def by (auto split: sum.splits)
  then show ?thesis unfolding f py_index_Inr_iff by simp
qed

lemma generate_normals_range:
  assumes "generate_normals vs fs ns = (ns', None)" "\<forall>f \<in> set fs. length f = 3"
  shows "\<forall>f \<in> set fs. \<forall>i \<in> set f. - int (length vs) \<le> i \<and> i < int (length vs)"
  using assms
proof (induction fs arbitrary: ns)
  case Nil
  then show ?case by simp
next
  case (Cons f fs)
  from Cons.prems(1) obtain n where n: "face_normal vs f = Inr n"
    and rest: "generate_normals vs fs (ns @ [n]) = (ns', None)"
    by (auto split: sum.splits)
  from face_normal_Inr_range [OF n] Cons.prems(2)
  have "\<forall>i \<in> set f. - int (length vs) \<le> i \<and> i < int (length vs)" by simp
  moreover from Cons.IH [OF rest] Cons.prems(2)
  have "\<forall>g \<in> set fs. \<forall>i \<in> set g. - int (length vs) \<le> i \<and> i < int (length vs)" by simp
  ultimately show ?case by simp
qed

lemma load_from_obj_True:
  assumes "load_from_obj float_of int_of rnd m src = (True, m')"
  shows "\<exists>ls vs fs ns. src = Lines ls \<and>
           parse_lines float_of int_of ls [] [] = (vs, fs, None) \<and>
           generate_normals vs fs [] = (ns, None) \<and>
           vertices m' = vs \<and> faces m' = fs \<and> normals m' = ns \<and>
           colors m' = random_colors rnd (length fs) \<and> vertex_cache m' = Map.empty"
  using assms
  by (auto simp: load_from_obj_def clear_mesh_def Let_def
      split: obj_source.splits prod.splits option.splits)

text \<open>
  A successful import leaves one normal and one color per face, and every face is a triple
  of indices that Python's list indexing accepts: from \<open>-len(vertices)\<close> up to
  \<open>len(vertices) - 1\<close>.
\<close>

lemma load_from_obj_lengths:
  assumes "load_from_obj float_of int_of rnd m src = (True, m')"
  shows "length (normals m') = length (faces m') \<and> length (faces m') = length (colors m')"
proof -
  from load_from_obj_True [OF assms] obtain ls vs fs ns where
    "generate_normals vs fs [] = (ns, None)" "faces m' = fs" "normals m' = ns"
    "colors m' = random_colors rnd (length fs)" by blast
  then show ?thesis using generate_normals_length [of vs fs "[]" ns None]
    by (simp add: length_random_colors)
qed

lemma load_from_obj_index_range:
  assumes "load_from_obj float_of int_of rnd m src = (True, m')"
  shows "\<forall>f \<in> set (faces m'). length f = 3 \<and>
           (\<forall>i \<in> set f. - int (length (vertices m')) \<le> i \<and> i < int (length (vertices m')))"
proof -
  from load_from_obj_True [OF assms] obtain ls vs fs ns where
    p: "parse_lines float_of int_of ls [] [] = (vs, fs, None)"
    and g: "generate_normals vs fs [] = (ns, None)"
    and e: "vertices m' = vs" "faces m' = fs" by blast
  from parse_lines_triples [OF p] have t: "\<forall>f \<in> set fs. length f = 3" by simp
  from generate_normals_range [OF g t] t show ?thesis by (simp add: e)
qed

text \<open>The example imports, evaluated.\<close>

lemma float_max_ge_one: "1 \<le> float_max"
proof -
  have "(1::real) \<le> 1 * 2 ^ 1023" by (simp add: one_le_power)
  also have "\<dots> \<le> (2 - 1 / 2 ^ 52) * 2 ^ 1023"
    by (intro mult_right_mono) (simp_all add: field_simps)
  finally show ?thesis by (simp add: float_max_def)
qed

lemma py_square_small: "x\<^sup>2 \<le> 1 \<Longrightarrow> py_square x = Inr (x\<^sup>2)"
  using float_max_ge_one by (simp add: py_square_def)

lemmas parse_eval =
  startswith_def py_split_def py_strip_def py_isspace_def parse_vertex_def parse_line_def
  dec_float_def dec_fraction_def dec_unsigned_def digit_of_def py_split_on_def dec_int_def
  triangulate_def Let_def

lemma parse_obj_index_zero:
  "parse_lines dec_float dec_int
     [''v 0 0 0\<newline>'', ''v 1 0 0\<newline>'', ''v 0 1 0\<newline>'', ''f 1 2 0\<newline>''] [] []
   = ([(0, 0, 0), (1, 0, 0), (0, 0, 1)], [[0, 1, -1]], None)"
  by (simp add: parse_eval)


lemma parse_obj_single_point:
  "parse_lines dec_float dec_int [''v 1 2 3\<newline>''] [] [] = ([(1, -3, 2)], [], None)"
  by (simp add: parse_eval)

lemma import_obj_index_zero:
  "import_into_cube obj_index_zero =
     (True, Mesh_init\<lparr>vertices := [(0, 0, 0), (1, 0, 0), (0, 0, 1)], faces := [[0, 1, -1]],
                     normals := [(0, -1, 0)], colors := [(100, 100, 100)],
                     bounding_box := ((0, 0, 0), (1, 0, 1)), vertex_cache := Map.empty\<rparr>)"
proof -
  have g: "generate_normals [(0, 0, 0), (1, 0, 0), (0, 0, 1)] [[0, 1, -1]] []
             = ([(0, -1, 0)], None)"
    by (simp add: face_normal_def py_index_def py_square_small)
  show ?thesis
    unfolding import_into_cube_def obj_index_zero_def load_from_obj_def Let_def
      obj_source.case parse_obj_index_zero prod.case option.case g
    by (simp add: clear_mesh_def random_colors_def calculate_bounding_box_def py_min_def
        py_max_def)
qed


lemma import_obj_single_point:
  "import_into_cube obj_single_point =
     (True, Mesh_init\<lparr>vertices := [(1, -3, 2)], faces := [], normals := [], colors := [],
                     bounding_box := ((1, -3, 2), (1, -3, 2)), vertex_cache := Map.empty\<rparr>)"
  unfolding import_into_cube_def obj_single_point_def load_from_obj_def Let_def
    obj_source.case parse_obj_single_point prod.case option.case
  by (simp add: clear_mesh_def random_colors_def calculate_bounding_box_def py_min_def
      py_max_def)

lemma import_obj_empty:
  "import_into_cube obj_empty =
     (True, Mesh_init\<lparr>vertices := [], faces := [], normals := [], colors := [],
                     bounding_box := ((-1, -1, -1), (1, 1, 1)), vertex_cache := Map.empty\<rparr>)"
  by (simp add: import_into_cube_def obj_empty_def load_from_obj_def clear_mesh_def
      random_colors_def calculate_bounding_box_def)

text \<open>
  C4. The claim is that after every successful build each face index \<open>i\<close> satisfies
  \<open>0 \<le> i < len(vertices)\<close>. It holds for the cube and the sphere
  (\<open>generate_cube_valid_indices\<close>, \<open>generate_sphere_valid_indices\<close>); the importer
  subtracts 1 from each token and reads the vertex with Python's indexing, so the token 0
  (and any negative token down to \<open>1 - len(vertices)\<close>) is accepted: the import of three
  vertices and the face line \<^verbatim>\<open>f 1 2 0\<close> reports success with the face \<open>(0, 1, -1)\<close>.
\<close>

theorem import_accepts_index_zero:
  "fst (import_into_cube obj_index_zero) = True \<and>
   vertices (snd (import_into_cube obj_index_zero)) = [(0, 0, 0), (1, 0, 0), (0, 0, 1)] \<and>
   faces (snd (import_into_cube obj_index_zero)) = [[0, 1, -1]]"
  by (simp add: import_obj_index_zero)
















lemma load_from_obj_out_of_range_fails:
  assumes "parse_lines float_of int_of ls [] [] = (vs, fs, None)"
    and "f \<in> set fs" "i \<in> set f" "i < - int (length vs) \<or> int (length vs) \<le> i"
  shows "fst (load_from_obj float_of int_of rnd m (Lines ls)) = False"
proof (rule ccontr)
  assume "fst (load_from_obj float_of int_of rnd m (Lines ls)) \<noteq> False"
  then obtain m' where t: "load_from_obj float_of int_of rnd m (Lines ls) = (True, m')"
    by (cases "load_from_obj float_of int_of rnd m (Lines ls)") auto
  from load_from_obj_True [OF t] assms(1) have "vertices m' = vs" "faces m' = fs" by auto
  with load_from_obj_index_range [OF t] assms(2-4) show False by fastforce
qed

subsection \<open>Camera\<close>

text \<open>
  C10. The auto-frame operation writes only \<open>z\<close>, the pan offsets, \<open>x\<close>, \<open>y\<close>, the pitch
  and yaw angles and the moved flag of the camera: field of view, near and far clip, roll
  angle and cached fingerprint keep their values (as do the two last-rotation fields), and
  the mesh it was given is left as it was.
\<close>

theorem auto_position_frame:
  "snd (auto_position cam m) = m \<and>
   fov (fst (auto_position cam m)) = fov cam \<and>
   near (fst (auto_position cam m)) = near cam \<and>
   far (fst (auto_position cam m)) = far cam \<and>
   rot_z (fst (auto_position cam m)) = rot_z cam \<and>
   cache_key (fst (auto_position cam m)) = cache_key cam \<and>
   last_rot_x (fst (auto_position cam m)) = last_rot_x cam \<and>
   last_rot_y (fst (auto_position cam m)) = last_rot_y cam \<and>
   (\<exists>z px py. fst (auto_position cam m) =
      cam\<lparr>cam_z := z, pan_x := px, pan_y := py, cam_x := 0, cam_y := 0,
          rot_x := 0, rot_y := 0, moved := True\<rparr>)"
  by (auto simp: auto_position_def Let_def split: prod.splits)

text \<open>
  C5 as stated: for a mesh whose bounding box has zero size the auto-frame operation sets a
  strictly positive camera distance. The import of the single vertex line \<^verbatim>\<open>v 1 2 3\<close>
  succeeds, its bounding box has size \<open>(0, 0, 0)\<close>, and auto-frame sets the camera \<open>z\<close> to 0.
\<close>

theorem auto_position_single_point_zero:
  "fst (import_into_cube obj_single_point) = True \<and>
   vertices (snd (import_into_cube obj_single_point)) = [(1, -3, 2)] \<and>
   get_size (snd (import_into_cube obj_single_point)) = (0, 0, 0) \<and>
   cam_z (fst (auto_position Camera_init (snd (import_into_cube obj_single_point)))) = 0"
  by (simp add: import_obj_single_point get_size_def get_center_def auto_position_def)

text \<open>
  C5, amended. Auto-frame sets the camera \<open>z\<close> to \<open>-2.5\<close> times the largest dimension of
  the bounding box, with no minimum. For a mesh without vertices the recomputed bounding
  box is the default \<open>[(-1,-1,-1), (1,1,1)]\<close> and the camera is put at \<open>z = -5\<close>; for a
  bounding box of size zero the camera \<open>z\<close> is 0.
\<close>

theorem auto_position_distance:
  "cam_z (fst (auto_position cam m)) =
     - (5 / 2) * max (fst (get_size m)) (max (fst (snd (get_size m))) (snd (snd (get_size m)))) \<and>
   (vertices m = [] \<longrightarrow> cam_z (fst (auto_position cam (calculate_bounding_box m))) = -5) \<and>
   (get_size m = (0, 0, 0) \<longrightarrow> cam_z (fst (auto_position cam m)) = 0)"
proof -
  have 1: "cam_z (fst (auto_position cam m)) =
     - (5 / 2) * max (fst (get_size m)) (max (fst (snd (get_size m))) (snd (snd (get_size m))))"
    for m
    by (simp add: auto_position_def Let_def split: prod.splits)
  have 2: "get_size (calculate_bounding_box m) = (2, 2, 2)" if "vertices m = []"
    using that by (simp add: calculate_bounding_box_def get_size_def)
  show ?thesis using 1 [of m] 1 [of "calculate_bounding_box m"] 2 by auto
qed

theorem auto_position_distance_witness:
  "vertices (snd (import_into_cube obj_empty)) = [] \<and>
   cam_z (fst (auto_position Camera_init
                 (calculate_bounding_box (snd (import_into_cube obj_empty))))) = -5 \<and>
   get_size (snd (import_into_cube obj_single_point)) = (0, 0, 0) \<and>
   cam_z (fst (auto_position Camera_init (snd (import_into_cube obj_single_point)))) = 0"
proof -
  have e: "vertices (snd (import_into_cube obj_empty)) = []"
    by (simp add: import_obj_empty)
  have p: "get_size (snd (import_into_cube obj_single_point)) = (0, 0, 0)"
    by (simp add: import_obj_single_point get_size_def)
  show ?thesis
    using auto_position_distance [of Camera_init "snd (import_into_cube obj_empty)"]
      auto_position_distance [of Camera_init "snd (import_into_cube obj_single_point)"] e p
    by simp
qed

text \<open>
  With the default camera the origin is projected to \<open>(W div 2, H div 2)\<close> at depth \<open>-5\<close>,
  whatever the current screen dimensions are.
\<close>

lemma project_origin_any_size:
  "project W H Camera_init (0, 0, 0) = Inr (W div 2, H div 2, -5)"
  by (simp add: project_def Camera_init_def int_trunc_def Let_def)

text \<open>
  C9. Projecting the point \<open>(0, 0, 0)\<close> with the camera in its default state (rotation
  zero, pan zero, \<open>z = -5\<close>) gives the screen coordinates \<open>(WIDTH / 2, HEIGHT / 2)\<close>, the
  center of the 1200 by 800 screen.
\<close>

theorem project_origin_default:
  "project WIDTH HEIGHT Camera_init (0, 0, 0) = Inr (600, 400, -5) \<and>
   real_of_int 600 = real_of_int WIDTH / 2 \<and> real_of_int 400 = real_of_int HEIGHT / 2"
  by (simp add: project_def Camera_init_def WIDTH_def HEIGHT_def int_trunc_def Let_def)

subsection \<open>Projection cache\<close>

text \<open>
  The depth loop against \<open>g\<close>, any function that agrees with the initial cache \<open>c0\<close>
  where it has an entry and with the projection of the vertex where it has none: after a
  face, and after all faces, the cache holds \<open>g\<close> on the indices reached and \<open>c0\<close>
  elsewhere, and the depths summed are those of \<open>g\<close>.
\<close>

lemma face_depth_sum_spec:
  fixes g :: "int \<Rightarrow> projected option"
  assumes "face_depth_sum W H cam vs uc f cache avg_z = Inr (cache', avg', valid)"
    and hit: "\<forall>k p. c0 k = Some p \<longrightarrow> g k = Some p"
    and miss: "\<forall>k vertex p. c0 k = None \<and> py_index vs k = Inr vertex \<and>
                 project W H cam vertex = Inr p \<longrightarrow> g k = Some p"
    and nouc: "\<not> uc \<longrightarrow> c0 = Map.empty"
    and inv: "\<forall>k. cache k = (if k \<in> V then g k else c0 k)"
    and Vok: "\<forall>k \<in> V. g k \<noteq> None"
  shows "(\<forall>k. cache' k =
            (if k \<in> V \<union> set (takeWhile (\<lambda>k. k < int (length vs)) f) then g k else c0 k)) \<and>
         avg' = avg_z + sum_list (map (\<lambda>k. snd (snd (the (g k))))
                                   (takeWhile (\<lambda>k. k < int (length vs)) f)) \<and>
         (valid \<longleftrightarrow> (\<forall>k \<in> set f. k < int (length vs))) \<and>
         (\<forall>k \<in> V \<union> set (takeWhile (\<lambda>k. k < int (length vs)) f). g k \<noteq> None)"
  using assms(1) inv Vok
proof (induction f arbitrary: cache avg_z V)
  case Nil
  then show ?case by auto
next
  case (Cons vi rest)
  show ?case
  proof (cases "vi < int (length vs)")
    case False
    with Cons.prems show ?thesis by auto
  next
    case True
    with Cons.prems(1) obtain vertex where v: "py_index vs vi = Inr vertex"
      by (auto split: sum.splits)
    have step: "\<exists>q cache1. g vi = Some q \<and>
        (\<forall>k. cache1 k = (if k \<in> insert vi V then g k else c0 k)) \<and>
        face_depth_sum W H cam vs uc rest cache1 (avg_z + snd (snd q))
          = Inr (cache', avg', valid)"
    proof (cases "if uc then cache vi else None")
      case (Some q)
      then have uc: uc and cq: "cache vi = Some q" by (auto split: if_splits)
      have gq: "g vi = Some q"
      proof (cases "vi \<in> V")
        case True
        with Cons.prems(2) cq show ?thesis by simp
      next
        case False
        with Cons.prems(2) cq have "c0 vi = Some q" by simp
        then show ?thesis using hit by blast
      qed
      have "\<forall>k. cache k = (if k \<in> insert vi V then g k else c0 k)"
        using Cons.prems(2) cq gq by auto
      moreover from Some True v Cons.prems(1)
      have "face_depth_sum W H cam vs uc rest cache (avg_z + snd (snd q))
              = Inr (cache', avg', valid)" by simp
      ultimately show ?thesis using gq by blast
    next
      case None
      with True v Cons.prems(1) obtain p where
        pr: "project W H cam vertex = Inr p"
        and rec: "face_depth_sum W H cam vs uc rest (cache(vi \<mapsto> p)) (avg_z + snd (snd p))
                    = Inr (cache', avg', valid)"
        by (auto split: sum.splits)
      have c0n: "c0 vi = None"
      proof (cases uc)
        case False
        then show ?thesis using nouc by simp
      next
        case True
        with None have cn: "cache vi = None" by simp
        show ?thesis
        proof (cases "vi \<in> V")
          case True
          with Cons.prems(2) cn have "g vi = None" by simp
          with Cons.prems(3) True show ?thesis by blast
        next
          case False
          with Cons.prems(2) cn show ?thesis by simp
        qed
      qed
      from miss c0n v pr have gp: "g vi = Some p" by blast
      have "\<forall>k. (cache(vi \<mapsto> p)) k = (if k \<in> insert vi V then g k else c0 k)"
        using Cons.prems(2) gp by auto
      with rec gp show ?thesis by blast
    qed
    then obtain q cache1 where gq: "g vi = Some q"
      and inv1: "\<forall>k. cache1 k = (if k \<in> insert vi V then g k else c0 k)"
      and rec: "face_depth_sum W H cam vs uc rest cache1 (avg_z + snd (snd q))
                  = Inr (cache', avg', valid)" by blast
    from gq have "g vi \<noteq> None" by (simp del: not_None_eq)
    with Cons.prems(3) have Vok1: "\<forall>k \<in> insert vi V. g k \<noteq> None" by blast
    have tw: "takeWhile (\<lambda>k. k < int (length vs)) (vi # rest)
        = vi # takeWhile (\<lambda>k. k < int (length vs)) rest" using True by simp
    have un: "V \<union> set (vi # takeWhile (\<lambda>k. k < int (length vs)) rest)
        = insert vi V \<union> set (takeWhile (\<lambda>k. k < int (length vs)) rest)" by simp
    from Cons.IH [OF rec inv1 Vok1] show ?thesis
      unfolding tw un using gq True by simp
  qed
qed

lemma face_depths_loop_spec:
  fixes g :: "int \<Rightarrow> projected option"
  assumes "face_depths_loop W H cam vs uc ifs cache fds = Inr (cache', fds')"
    and hit: "\<forall>k p. c0 k = Some p \<longrightarrow> g k = Some p"
    and miss: "\<forall>k vertex p. c0 k = None \<and> py_index vs k = Inr vertex \<and>
                 project W H cam vertex = Inr p \<longrightarrow> g k = Some p"
    and nouc: "\<not> uc \<longrightarrow> c0 = Map.empty"
    and inv: "\<forall>k. cache k = (if k \<in> V then g k else c0 k)"
    and Vok: "\<forall>k \<in> V. g k \<noteq> None"
  shows "(\<forall>k. cache' k =
            (if k \<in> V \<union> (\<Union>f \<in> snd ` set ifs. set (takeWhile (\<lambda>k. k < int (length vs)) f))
             then g k else c0 k)) \<and>
         fds' = fds @ map (\<lambda>(i, f). (i, sum_list (map (\<lambda>k. snd (snd (the (g k)))) f)
                                          / real (length f)))
                        (filter (\<lambda>(i, f). (\<forall>k \<in> set f. k < int (length vs)) \<and> f \<noteq> []) ifs) \<and>
         (\<forall>k \<in> V \<union> (\<Union>f \<in> snd ` set ifs. set (takeWhile (\<lambda>k. k < int (length vs)) f)).
            g k \<noteq> None)"
  using assms(1) inv Vok
proof (induction ifs arbitrary: cache fds V)
  case Nil
  then show ?case by auto
next
  case (Cons a rest)
  obtain i f where a: "a = (i, f)" by (cases a)
  let ?P = "\<lambda>k. k < int (length vs)"
  from Cons.prems(1) obtain c1 avg valid where
    s: "face_depth_sum W H cam vs uc f cache 0 = Inr (c1, avg, valid)"
    unfolding a by (auto split: sum.splits)
  from face_depth_sum_spec [OF s hit miss nouc Cons.prems(2,3)]
  have inv1: "\<forall>k. c1 k = (if k \<in> V \<union> set (takeWhile ?P f) then g k else c0 k)"
    and avg: "avg = sum_list (map (\<lambda>k. snd (snd (the (g k)))) (takeWhile ?P f))"
    and valid: "valid \<longleftrightarrow> (\<forall>k \<in> set f. ?P k)"
    and Vok1: "\<forall>k \<in> V \<union> set (takeWhile ?P f). g k \<noteq> None"
    by simp_all
  let ?fds1 = "if valid \<and> length f > 0 then fds @ [(i, avg / real (length f))] else fds"
  from Cons.prems(1) s have
    r: "face_depths_loop W H cam vs uc rest c1 ?fds1 = Inr (cache', fds')"
    unfolding a by (auto split: if_splits)
  have un: "V \<union> (\<Union>f \<in> snd ` set (a # rest). set (takeWhile ?P f))
      = (V \<union> set (takeWhile ?P f)) \<union> (\<Union>f \<in> snd ` set rest. set (takeWhile ?P f))"
    by (auto simp: a)
  have fd: "?fds1 @ map (\<lambda>(i, f). (i, sum_list (map (\<lambda>k. snd (snd (the (g k)))) f)
                                          / real (length f)))
                        (filter (\<lambda>(i, f). (\<forall>k \<in> set f. ?P k) \<and> f \<noteq> []) rest)
      = fds @ map (\<lambda>(i, f). (i, sum_list (map (\<lambda>k. snd (snd (the (g k)))) f)
                                          / real (length f)))
                        (filter (\<lambda>(i, f). (\<forall>k \<in> set f. ?P k) \<and> f \<noteq> []) (a # rest))"
  proof (cases "(\<forall>k \<in> set f. ?P k) \<and> f \<noteq> []")
    case True
    then have "takeWhile ?P f = f" by (simp add: takeWhile_eq_all_conv)
    with True valid avg show ?thesis by (simp add: a)
  next
    case False
    with valid show ?thesis by (auto simp: a)
  qed
  from Cons.IH [OF r inv1 Vok1] show ?case
    unfolding un fd [symmetric] by simp
qed

lemma project_ignores_cache_fields:
  "project W H (cam\<lparr>cache_key := k, moved := b\<rparr>) point = project W H cam point"
  by (simp add: project_def Let_def cong: if_cong split: prod.splits)

lemma py_index_in_set:
  assumes "- int (length xs) \<le> i" "i < int (length xs)"
  shows "\<exists>x \<in> set xs. py_index xs i = Inr x"
proof (cases "0 \<le> i")
  case True
  with assms have "nat i < length xs" by linarith
  with True assms show ?thesis by (auto simp: py_index_def)
next
  case False
  with assms have "nat (int (length xs) + i) < length xs" by linarith
  with False assms show ?thesis by (auto simp: py_index_def)
qed

lemma face_depth_sum_returns:
  assumes "\<forall>i \<in> set f. - int (length vs) \<le> i"
    and "\<forall>vertex \<in> set vs. \<exists>p. project W H cam vertex = Inr p"
  shows "\<exists>r. face_depth_sum W H cam vs uc f cache avg_z = Inr r"
  using assms(1)
proof (induction f arbitrary: cache avg_z)
  case Nil
  then show ?case by auto
next
  case (Cons vi rest)
  show ?case
  proof (cases "vi < int (length vs)")
    case False
    then show ?thesis by auto
  next
    case True
    with Cons.prems py_index_in_set [of vs vi] obtain vertex where
      v: "vertex \<in> set vs" "py_index vs vi = Inr vertex" by auto
    from assms(2) v obtain p where p: "project W H cam vertex = Inr p" by blast
    from Cons.prems have r: "\<forall>i \<in> set rest. - int (length vs) \<le> i" by simp
    show ?thesis
    proof (cases "if uc then cache vi else None")
      case None
      with True v p have "face_depth_sum W H cam vs uc (vi # rest) cache avg_z
          = face_depth_sum W H cam vs uc rest (cache(vi \<mapsto> p)) (avg_z + snd (snd p))"
        by simp
      then show ?thesis using Cons.IH [OF r] by simp
    next
      case (Some q)
      with True v have "face_depth_sum W H cam vs uc (vi # rest) cache avg_z
          = face_depth_sum W H cam vs uc rest cache (avg_z + snd (snd q))"
        by simp
      then show ?thesis using Cons.IH [OF r] by simp
    qed
  qed
qed

lemma face_depths_loop_returns:
  assumes "\<forall>(k, f) \<in> set ifs. \<forall>i \<in> set f. - int (length vs) \<le> i"
    and "\<forall>vertex \<in> set vs. \<exists>p. project W H cam vertex = Inr p"
  shows "\<exists>r. face_depths_loop W H cam vs uc ifs cache fds = Inr r"
  using assms(1)
proof (induction ifs arbitrary: cache fds)
  case Nil
  then show ?case by simp
next
  case (Cons a rest)
  obtain k f where a: "a = (k, f)" by (cases a)
  from Cons.prems a have "\<forall>i \<in> set f. - int (length vs) \<le> i" by simp
  from face_depth_sum_returns [OF this assms(2), of uc cache 0]
  obtain c1 avg valid where
    s: "face_depth_sum W H cam vs uc f cache 0 = Inr (c1, avg, valid)"
    by (metis prod_cases3)
  from Cons.prems have r: "\<forall>(k, f) \<in> set rest. \<forall>i \<in> set f. - int (length vs) \<le> i" by simp
  show ?case
    unfolding a using s Cons.IH [OF r, of c1] by simp
qed

lemma draw_mesh_depths_returns:
  assumes "\<forall>f \<in> set (faces (mesh v)). \<forall>i \<in> set f. - int (length (vertices (mesh v))) \<le> i"
    and "\<forall>vertex \<in> set (vertices (mesh v)). \<exists>p. project W H (camera v) vertex = Inr p"
  shows "\<exists>v' face_depths. draw_mesh_depths W H v = Inr (v', face_depths)"
proof -
  let ?v1 = "reset_cache v"
  have m: "vertices (mesh ?v1) = vertices (mesh v)" "faces (mesh ?v1) = faces (mesh v)"
    by (simp_all add: reset_cache_def)
  have pj: "project W H (camera ?v1) x = project W H (camera v) x" for x
    by (simp add: reset_cache_def project_ignores_cache_fields)
  have 1: "\<forall>(k, f) \<in> set (zip [0..<length (faces (mesh ?v1))] (faces (mesh ?v1))).
             \<forall>i \<in> set f. - int (length (vertices (mesh ?v1))) \<le> i"
    using assms(1) unfolding m by (auto dest: set_zip_rightD)
  have 2: "\<forall>vertex \<in> set (vertices (mesh ?v1)). \<exists>p. project W H (camera ?v1) vertex = Inr p"
    using assms(2) unfolding m pj .
  from face_depths_loop_returns [OF 1 2] obtain c fds where
    "face_depths_loop W H (camera ?v1) (vertices (mesh ?v1)) (use_cache v)
       (zip [0..<length (faces (mesh ?v1))] (faces (mesh ?v1))) (vertex_cache (mesh ?v1)) []
     = Inr (c, fds)" by (metis surj_pair)
  then show ?thesis by (simp add: draw_mesh_depths_def Let_def)
qed

lemma project_cube_corner:
  "project WIDTH HEIGHT Camera_init (-1, -1, -1) = Inr (1600, 1400, -6)"
  by (simp add: project_def Camera_init_def WIDTH_def HEIGHT_def int_trunc_def Let_def)

lemma project_cube_total:
  "\<forall>vertex \<in> set (vertices Mesh_init). \<exists>p. project WIDTH HEIGHT Camera_init vertex = Inr p"
  by (simp add: Mesh_init_def generate_cube_def project_def Camera_init_def Let_def)

lemma cube_indices_lower:
  "\<forall>f \<in> set (faces Mesh_init). \<forall>i \<in> set f. - int (length (vertices Mesh_init)) \<le> i"
  by (simp add: Mesh_init_def generate_cube_def)


text \<open>
  C6. On a frame, cached projections are in use exactly when the stored fingerprint is
  the camera's \<open>(rot_x, rot_y, z, pan_x, pan_y)\<close>, the moved flag is clear and
  performance mode is off; then the cache check changes nothing. In every other case it
  empties the cache, stores that fingerprint and clears the moved flag. When the frame
  returns, the viewer differs from the one after the cache check in the cache only; the
  cache holds, for every vertex index the loop reached, the projection the frame used
  (the cached one when cached projections are in use and the index had an entry, the
  projection of the vertex under the current camera otherwise) and is as the cache check
  left it elsewhere; and the depth of every face is the mean of the depths of the
  projections used for its indices, the faces with an index not below \<open>len(vertices)\<close>
  and the empty faces being left out.
\<close>

theorem draw_mesh_cache:
  "(use_cache v \<longleftrightarrow>
      cache_key (camera v) =
        Some (rot_x (camera v), rot_y (camera v), cam_z (camera v),
              pan_x (camera v), pan_y (camera v)) \<and>
      \<not> moved (camera v) \<and> \<not> performance_mode v) \<and>
   reset_cache v =
     (if use_cache v then v
      else v\<lparr>mesh := (mesh v)\<lparr>vertex_cache := Map.empty\<rparr>,
             camera := (camera v)
               \<lparr>cache_key := Some (rot_x (camera v), rot_y (camera v), cam_z (camera v),
                                   pan_x (camera v), pan_y (camera v)),
                moved := False\<rparr>\<rparr>) \<and>
   (\<forall>v' face_depths. draw_mesh_depths W H v = Inr (v', face_depths) \<longrightarrow>
      v' = (reset_cache v)\<lparr>mesh := (mesh (reset_cache v))
                                   \<lparr>vertex_cache := vertex_cache (mesh v')\<rparr>\<rparr> \<and>
      (\<forall>k. vertex_cache (mesh v') k =
         (if k \<in> visited_indices (mesh v) then projection_used W H v k
          else if use_cache v then vertex_cache (mesh v) k else None)) \<and>
      (\<forall>k \<in> visited_indices (mesh v). \<exists>p. projection_used W H v k = Some p) \<and>
      face_depths =
        sort_face_depths
          (map (\<lambda>(i, f). (i, sum_list (map (\<lambda>k. snd (snd (the (projection_used W H v k)))) f)
                             / real (length f)))
             (filter (\<lambda>(i, f). (\<forall>k \<in> set f. k < int (length (vertices (mesh v)))) \<and> f \<noteq> [])
                (zip [0..<length (faces (mesh v))] (faces (mesh v))))))"
proof -
  have a: "use_cache v \<longleftrightarrow>
      cache_key (camera v) =
        Some (rot_x (camera v), rot_y (camera v), cam_z (camera v),
              pan_x (camera v), pan_y (camera v)) \<and>
      \<not> moved (camera v) \<and> \<not> performance_mode v"
    by (auto simp: use_cache_def current_key_def)
  have b: "reset_cache v =
     (if use_cache v then v
      else v\<lparr>mesh := (mesh v)\<lparr>vertex_cache := Map.empty\<rparr>,
             camera := (camera v)
               \<lparr>cache_key := Some (rot_x (camera v), rot_y (camera v), cam_z (camera v),
                                   pan_x (camera v), pan_y (camera v)),
                moved := False\<rparr>\<rparr>)"
    by (simp add: reset_cache_def current_key_def)
  have d: "v' = (reset_cache v)\<lparr>mesh := (mesh (reset_cache v))
                                   \<lparr>vertex_cache := vertex_cache (mesh v')\<rparr>\<rparr> \<and>
      (\<forall>k. vertex_cache (mesh v') k =
         (if k \<in> visited_indices (mesh v) then projection_used W H v k
          else if use_cache v then vertex_cache (mesh v) k else None)) \<and>
      (\<forall>k \<in> visited_indices (mesh v). \<exists>p. projection_used W H v k = Some p) \<and>
      face_depths =
        sort_face_depths
          (map (\<lambda>(i, f). (i, sum_list (map (\<lambda>k. snd (snd (the (projection_used W H v k)))) f)
                             / real (length f)))
             (filter (\<lambda>(i, f). (\<forall>k \<in> set f. k < int (length (vertices (mesh v)))) \<and> f \<noteq> [])
                (zip [0..<length (faces (mesh v))] (faces (mesh v)))))"
    if r: "draw_mesh_depths W H v = Inr (v', face_depths)" for v' face_depths
  proof -
    let ?v1 = "reset_cache v"
    let ?c0 = "vertex_cache (mesh ?v1)"
    let ?g = "projection_used W H v"
    have vs: "vertices (mesh ?v1) = vertices (mesh v)" by (simp add: reset_cache_def)
    have fs: "faces (mesh ?v1) = faces (mesh v)" by (simp add: reset_cache_def)
    have pj: "project W H (camera ?v1) x = project W H (camera v) x" for x
      by (simp add: reset_cache_def project_ignores_cache_fields)
    have c0: "?c0 = (if use_cache v then vertex_cache (mesh v) else Map.empty)"
      by (simp add: reset_cache_def)
    from r obtain cache' fds where
      l: "face_depths_loop W H (camera ?v1) (vertices (mesh v)) (use_cache v)
            (zip [0..<length (faces (mesh v))] (faces (mesh v))) ?c0 [] = Inr (cache', fds)"
      and v': "v' = ?v1\<lparr>mesh := (mesh ?v1)\<lparr>vertex_cache := cache'\<rparr>\<rparr>"
      and fd: "face_depths = sort_face_depths fds"
      by (auto simp: draw_mesh_depths_def Let_def vs fs split: sum.splits)
    have hit: "\<forall>k p. ?c0 k = Some p \<longrightarrow> ?g k = Some p"
      unfolding c0 by (auto simp: projection_used_def split: if_splits)
    have miss: "\<forall>k vertex p. ?c0 k = None \<and> py_index (vertices (mesh v)) k = Inr vertex \<and>
        project W H (camera ?v1) vertex = Inr p \<longrightarrow> ?g k = Some p"
      unfolding c0 pj by (auto simp: projection_used_def split: if_splits)
    have nouc: "\<not> use_cache v \<longrightarrow> ?c0 = Map.empty" by (simp add: c0)
    have inv: "\<forall>k. ?c0 k = (if k \<in> {} then ?g k else ?c0 k)" by simp
    have Vok: "\<forall>k \<in> {}. ?g k \<noteq> None" by simp
    have z: "snd ` set (zip [0..<length (faces (mesh v))] (faces (mesh v))) = set (faces (mesh v))"
      by (metis length_upt diff_zero map_snd_zip set_map)
    have vi: "{} \<union> (\<Union>f \<in> snd ` set (zip [0..<length (faces (mesh v))] (faces (mesh v))).
                 set (takeWhile (\<lambda>k. k < int (length (vertices (mesh v)))) f))
        = visited_indices (mesh v)"
      unfolding z by (simp add: visited_indices_def)
    have spec: "(\<forall>k. cache' k =
            (if k \<in> visited_indices (mesh v) then ?g k else ?c0 k)) \<and>
         fds = [] @ map (\<lambda>(i, f). (i, sum_list (map (\<lambda>k. snd (snd (the (?g k)))) f)
                                          / real (length f)))
                        (filter (\<lambda>(i, f). (\<forall>k \<in> set f. k < int (length (vertices (mesh v))))
                                          \<and> f \<noteq> [])
                           (zip [0..<length (faces (mesh v))] (faces (mesh v)))) \<and>
         (\<forall>k \<in> visited_indices (mesh v). ?g k \<noteq> None)"
      using face_depths_loop_spec [where g = ?g and ?c0.0 = ?c0 and V = "{}", OF l hit miss nouc inv Vok]
      unfolding vi by blast
    have cv': "vertex_cache (mesh v') = cache'" by (simp add: v')
    have 1: "v' = ?v1\<lparr>mesh := (mesh ?v1)\<lparr>vertex_cache := vertex_cache (mesh v')\<rparr>\<rparr>"
      unfolding cv' by (rule v')
    have 2: "\<forall>k. vertex_cache (mesh v') k =
         (if k \<in> visited_indices (mesh v) then ?g k
          else if use_cache v then vertex_cache (mesh v) k else None)"
      using spec unfolding cv' c0 by simp
    have 3: "\<forall>k \<in> visited_indices (mesh v). \<exists>p. ?g k = Some p"
      using spec by blast
    have 4: "face_depths =
        sort_face_depths
          (map (\<lambda>(i, f). (i, sum_list (map (\<lambda>k. snd (snd (the (?g k)))) f) / real (length f)))
             (filter (\<lambda>(i, f). (\<forall>k \<in> set f. k < int (length (vertices (mesh v)))) \<and> f \<noteq> [])
                (zip [0..<length (faces (mesh v))] (faces (mesh v)))))"
      using spec unfolding fd by simp
    from 1 2 3 4 show ?thesis by blast
  qed
  from a b d show ?thesis by blast
qed

theorem draw_mesh_cache_witness:
  "\<not> use_cache Viewer3D_init \<and>
   (\<exists>v' fd. draw_mesh_depths WIDTH HEIGHT Viewer3D_init = Inr (v', fd) \<and>
      cache_key (camera v') = Some (0, 0, -5, 0, 0) \<and> \<not> moved (camera v') \<and>
      vertex_cache (mesh v') 0 = Some (1600, 1400, -6) \<and>
      use_cache v' \<and> reset_cache v' = v' \<and>
      (\<exists>v'' fd'. draw_mesh_depths WIDTH HEIGHT v' = Inr (v'', fd') \<and>
         projection_used WIDTH HEIGHT v' 0 = Some (1600, 1400, -6) \<and>
         vertex_cache (mesh v'') 0 = Some (1600, 1400, -6)))"
proof -
  let ?v = Viewer3D_init
  have nuc: "\<not> use_cache ?v"
    by (simp add: use_cache_def Viewer3D_init_def Camera_init_def)
  have cm: "camera ?v = Camera_init" "mesh ?v = Mesh_init" "\<not> performance_mode ?v"
    by (simp_all add: Viewer3D_init_def)
  have r1: "\<exists>v' fd. draw_mesh_depths WIDTH HEIGHT ?v = Inr (v', fd)"
    by (rule draw_mesh_depths_returns)
       (use cube_indices_lower project_cube_total in \<open>auto simp: cm\<close>)
  then obtain v' fd where d1: "draw_mesh_depths WIDTH HEIGHT ?v = Inr (v', fd)" by blast
  note t1 = draw_mesh_cache [of ?v WIDTH HEIGHT]
  from t1 d1 have v': "v' = (reset_cache ?v)\<lparr>mesh := (mesh (reset_cache ?v))
                                   \<lparr>vertex_cache := vertex_cache (mesh v')\<rparr>\<rparr>"
    by blast
  from t1 nuc have rv: "reset_cache ?v =
      ?v\<lparr>mesh := (mesh ?v)\<lparr>vertex_cache := Map.empty\<rparr>,
         camera := (camera ?v)
           \<lparr>cache_key := Some (rot_x (camera ?v), rot_y (camera ?v), cam_z (camera ?v),
                               pan_x (camera ?v), pan_y (camera ?v)),
            moved := False\<rparr>\<rparr>"
    by simp
  have rc: "camera (reset_cache ?v) = Camera_init\<lparr>cache_key := Some (0, 0, -5, 0, 0), moved := False\<rparr>"
    "vertices (mesh (reset_cache ?v)) = vertices Mesh_init"
    "faces (mesh (reset_cache ?v)) = faces Mesh_init"
    "\<not> performance_mode (reset_cache ?v)"
    unfolding rv by (simp_all add: cm Camera_init_def)
  have cam': "camera v' = Camera_init\<lparr>cache_key := Some (0, 0, -5, 0, 0), moved := False\<rparr>"
    by (subst v') (simp add: rc)
  have vs': "vertices (mesh v') = vertices Mesh_init" "faces (mesh v') = faces Mesh_init"
    "\<not> performance_mode v'"
    by (subst v', simp add: rc)+
  have k: "cache_key (camera v') = Some (0, 0, -5, 0, 0)" "\<not> moved (camera v')"
    by (simp_all add: cam')
  have uc': "use_cache v'"
    by (simp add: use_cache_def cam' vs' current_key_def Camera_init_def)
  have vis: "0 \<in> visited_indices Mesh_init"
    by (simp add: visited_indices_def Mesh_init_def generate_cube_def)
  have i0: "py_index (vertices Mesh_init) 0 = Inr (-1, -1, -1)"
    by (simp add: Mesh_init_def generate_cube_def py_index_def)
  have pu: "projection_used WIDTH HEIGHT ?v 0 = Some (1600, 1400, -6)"
    using nuc by (simp add: projection_used_def cm i0 project_cube_corner)
  from t1 d1 have "vertex_cache (mesh v') 0 =
      (if 0 \<in> visited_indices (mesh ?v) then projection_used WIDTH HEIGHT ?v 0
       else if use_cache ?v then vertex_cache (mesh ?v) 0 else None)"
    by blast
  with vis pu have c0: "vertex_cache (mesh v') 0 = Some (1600, 1400, -6)"
    by (simp add: cm)
  note t2 = draw_mesh_cache [of v' WIDTH HEIGHT]
  from t2 uc' have rs: "reset_cache v' = v'" by simp
  have pj: "project WIDTH HEIGHT (camera v') x = project WIDTH HEIGHT Camera_init x" for x
    unfolding cam' by (rule project_ignores_cache_fields)
  have "\<exists>v'' fd'. draw_mesh_depths WIDTH HEIGHT v' = Inr (v'', fd')"
    by (rule draw_mesh_depths_returns)
       (use cube_indices_lower project_cube_total in \<open>auto simp: vs' pj\<close>)
  then obtain v'' fd' where d2: "draw_mesh_depths WIDTH HEIGHT v' = Inr (v'', fd')" by blast
  have pu2: "projection_used WIDTH HEIGHT v' 0 = Some (1600, 1400, -6)"
    using uc' c0 by (simp add: projection_used_def)
  have vis2: "0 \<in> visited_indices (mesh v')"
    using vis by (simp add: visited_indices_def vs')
  from t2 d2 have "vertex_cache (mesh v'') 0 =
      (if 0 \<in> visited_indices (mesh v') then projection_used WIDTH HEIGHT v' 0
       else if use_cache v' then vertex_cache (mesh v') 0 else None)"
    by blast
  with vis2 pu2 have c2: "vertex_cache (mesh v'') 0 = Some (1600, 1400, -6)" by simp
  from nuc d1 k c0 uc' rs d2 pu2 c2 show ?thesis by blast
qed

subsection \<open>Painter's ordering\<close>

text \<open>
  C7. The per-frame sort of the (face index, average depth) pairs puts them in descending
  order of depth, keeps the same pairs, keeps pairs of equal depth in their original
  relative order, and sorting a second time changes nothing.
\<close>

theorem sort_face_depths_painter:
  "sorted_wrt (\<lambda>a b. snd a \<ge> snd b) (sort_face_depths xs) \<and>
   mset (sort_face_depths xs) = mset xs \<and>
   (\<forall>d. filter (\<lambda>p. snd p = d) (sort_face_depths xs) = filter (\<lambda>p. snd p = d) xs) \<and>
   sort_face_depths (sort_face_depths xs) = sort_face_depths xs"
proof -
  let ?k = "\<lambda>x :: nat \<times> real. - snd x"
  have s: "sorted (map ?k (sort_key ?k xs))" by (rule sorted_sort_key)
  have 1: "sorted_wrt (\<lambda>a b. snd a \<ge> snd b) (sort_key ?k xs)"
    using s by (simp add: sorted_map sorted_wrt_iff_nth_less)
  have 3: "filter (\<lambda>p. snd p = d) (sort_key ?k xs) = filter (\<lambda>p. snd p = d) xs" for d
    using sort_key_stable [of ?k "- d" xs] by simp
  have 4: "sort_key ?k (sort_key ?k xs) = sort_key ?k xs"
    by (rule sort_key_id_if_sorted) (rule s)
  show ?thesis unfolding sort_face_depths_def using 1 3 4 by simp
qed

subsection \<open>Shading\<close>

lemma int_trunc_bounds:
  assumes "0 \<le> x" "x \<le> 255"
  shows "0 \<le> int_trunc x \<and> int_trunc x \<le> 255"
  using assms by (simp add: int_trunc_def floor_le_iff le_floor_iff)

text \<open>
  In the modes Color, Normal, Specular, Metallic and Roughness every channel of the face
  color is in the 8-bit range, for a base color in that range and an intensity in
  \<open>[0.2, 1]\<close>.
\<close>

lemma face_color_in_range:
  assumes "0 \<le> r" "r \<le> 255" "0 \<le> g" "g \<le> 255" "0 \<le> b" "b \<le> 255"
    and "1 / 5 \<le> i" "i \<le> 1" and "0 \<le> mode" "mode \<le> 4"
    and "face_color mode (r, g, b) i = (r', g', b')"
  shows "0 \<le> r' \<and> r' \<le> 255 \<and> 0 \<le> g' \<and> g' \<le> 255 \<and> 0 \<le> b' \<and> b' \<le> 255"
proof -
  have c: "0 \<le> real_of_int c * i \<and> real_of_int c * i \<le> 255" if "0 \<le> c" "c \<le> 255" for c :: int
  proof -
    have "real_of_int c * i \<le> real_of_int c * 1"
      using that assms by (intro mult_left_mono) auto
    with that assms show ?thesis by auto
  qed
  consider "mode = 0" | "mode = 1" | "mode = 2" | "mode = 3" | "mode = 4"
    using assms by linarith
  then show ?thesis
  proof cases
    case 1
    with assms c[of r] c[of g] c[of b] show ?thesis
      using int_trunc_bounds by (auto simp: face_color_def)
  next
    case 2
    with assms show ?thesis
      using int_trunc_bounds[of "100 * i"] int_trunc_bounds[of "255 * i"]
      by (auto simp: face_color_def)
  next
    case 3
    with assms show ?thesis
      using int_trunc_bounds[of "255 * i"] by (auto simp: face_color_def)
  next
    case 4
    with assms show ?thesis
      using int_trunc_bounds[of "200 * ((i + 1/2) / 2)"] by (auto simp: face_color_def Let_def)
  next
    case 5
    with assms show ?thesis
      using int_trunc_bounds[of "100 * (1 - i)"] by (auto simp: face_color_def Let_def)
  qed
qed

text \<open>
  C3. The claim is that every channel of the shaded color lies in \<open>[0, 255]\<close> in all six
  modes, the Glossiness scaling by 1.5 being clamped. The Glossiness branch has no clamp:
  a white face at intensity 1 is given the color \<open>(382, 382, 382)\<close>.
\<close>

theorem face_color_glossiness_unclamped:
  "face_color 5 (255, 255, 255) 1 = (382, 382, 382)"
  by (simp add: face_color_def int_trunc_def Let_def)

end
